theory Spec2Isabelle
  imports Complex_Main "HOL-Library.AList" "HOL-Library.Multiset"
begin

section \<open>Python values and exceptions\<close>

text \<open>
  The exceptions the modelled Python code can raise.  A function that can raise returns
  \<open>error + 'a\<close>, with \<open>Inl\<close> for the exception.
\<close>

datatype error = ValueError | IndexError | KeyError | ZeroDivisionError | TypeError
  | UnboundLocalError

text \<open>\<open>range(a, b)\<close> over Python's unbounded integers.\<close>

definition py_range :: "int \<Rightarrow> int \<Rightarrow> int list" where
  "py_range a b = [a..b - 1]"

text \<open>\<open>xs[i]\<close>: negative indices count from the end, anything else out of range raises.\<close>

definition py_index :: "'a list \<Rightarrow> int \<Rightarrow> error + 'a" where
  "py_index xs i =
     (if 0 \<le> i \<and> i < int (length xs) then Inr (xs ! nat i)
      else if i < 0 \<and> - int (length xs) \<le> i then Inr (xs ! nat (int (length xs) + i))
      else Inl IndexError)"

subsection \<open>\<open>int(str)\<close> on ASCII text\<close>

definition is_digit :: "char \<Rightarrow> bool" where
  "is_digit c = (c \<in> set ''0123456789'')"

definition is_space :: "char \<Rightarrow> bool" where
  "is_space c = ((of_char c :: nat) \<in> {9, 10, 11, 12, 13, 28, 29, 30, 31, 32})"

definition digit_value :: "char \<Rightarrow> nat" where
  "digit_value c = of_char c - 48"

definition decimal_value :: "string \<Rightarrow> nat" where
  "decimal_value ds = foldl (\<lambda>acc c. 10 * acc + digit_value c) 0 ds"

text \<open>Digits, where single underscores may stand between two digits.\<close>

fun digit_run :: "string \<Rightarrow> bool" where
  "digit_run [] = False"
| "digit_run [c] = is_digit c"
| "digit_run (c # d # cs) =
     (is_digit c \<and> (if d = CHR ''_'' then digit_run cs else digit_run (d # cs)))"

definition strip :: "string \<Rightarrow> string" where
  "strip s = dropWhile is_space (rev (dropWhile is_space (rev s)))"

text \<open>
  \<open>int(s)\<close> for a string: surrounding whitespace is dropped, one sign is accepted, the
  rest must be a digit run; anything else raises \<open>ValueError\<close>.
\<close>

definition py_int :: "string \<Rightarrow> error + int" where
  "py_int s =
     (let t = strip s;
          neg = (case t of c # cs \<Rightarrow> c = CHR ''-'' | [] \<Rightarrow> False);
          u = (case t of c # cs \<Rightarrow> if c = CHR ''-'' \<or> c = CHR ''+'' then cs else t | [] \<Rightarrow> [])
      in if digit_run u
         then Inr ((if neg then - 1 else 1) * int (decimal_value (filter is_digit u)))
         else Inl ValueError)"

section \<open>Read.py: one alignment record\<close>

text \<open>
  The attributes of class \<open>Read\<close>.  \<open>cigar_lst\<close> is the operator description split into
  characters, \<open>parsed_cigar\<close> the list of \<open>[count text, operator]\<close> sublists,
  \<open>aligned_sequence\<close> the list of one-character strings, \<open>rightmost_position\<close> is
  \<open>None\<close> until \<open>get_aligned_sequence\<close> has run.
\<close>

record read =
  read_id :: string
  flag :: int
  leftmost_position :: int
  quality :: int
  cigar_lst :: string
  sequence :: string
  parsed_cigar :: "(string \<times> char) list"
  aligned_sequence :: string
  rightmost_position :: "int option"

definition is_operator :: "char \<Rightarrow> bool" where
  "is_operator c = (c = CHR ''M'' \<or> c = CHR ''D'' \<or> c = CHR ''I'')"

text \<open>
  The loop of \<open>parse_cigar\<close>: \<open>sub\<close> is \<open>cigar_sublist\<close>, \<open>acc\<close> is
  \<open>self.parsed_cigar\<close>.  Whatever is left in \<open>sub\<close> at the end is dropped.
\<close>

fun parse_cigar_loop :: "string \<Rightarrow> string \<Rightarrow> (string \<times> char) list \<Rightarrow> (string \<times> char) list" where
  "parse_cigar_loop [] sub acc = acc"
| "parse_cigar_loop (c # cs) sub acc =
     (if is_operator c then parse_cigar_loop cs [] (acc @ [(sub, c)])
      else parse_cigar_loop cs (sub @ [c]) acc)"

definition parse_cigar :: "read \<Rightarrow> read" where
  "parse_cigar r = r\<lparr>parsed_cigar := parse_cigar_loop (cigar_lst r) [] (parsed_cigar r)\<rparr>"

text \<open>
  \<open>self.parsed_cigar is []\<close> compares object identity with a list created on the spot,
  so it is false whatever \<open>parsed_cigar\<close> holds.
\<close>

definition is_new_empty_list :: "'a list \<Rightarrow> bool" where
  "is_new_empty_list xs = False"

text \<open>The inner loop of a Match: \<open>self.aligned_sequence += sequence_lst[i]\<close>.\<close>

fun copy_bases :: "string \<Rightarrow> int list \<Rightarrow> string \<Rightarrow> error + string" where
  "copy_bases sequence_lst [] aligned = Inr aligned"
| "copy_bases sequence_lst (i # is) aligned =
     (case py_index sequence_lst i of
        Inl e \<Rightarrow> Inl e
      | Inr c \<Rightarrow> copy_bases sequence_lst is (aligned @ [c]))"

text \<open>The loop over \<open>self.parsed_cigar\<close>; the state is the aligned sequence and \<open>last_position\<close>.\<close>

fun aligned_loop :: "string \<Rightarrow> (string \<times> char) list \<Rightarrow> string \<Rightarrow> int \<Rightarrow> error + string \<times> int" where
  "aligned_loop sequence_lst [] aligned last_position = Inr (aligned, last_position)"
| "aligned_loop sequence_lst ((count_text, operator) # rest) aligned last_position =
     (case py_int count_text of
        Inl e \<Rightarrow> Inl e
      | Inr consumed_positions \<Rightarrow>
          if operator = CHR ''M'' then
            (case copy_bases sequence_lst
                    (py_range last_position (consumed_positions + last_position)) aligned of
               Inl e \<Rightarrow> Inl e
             | Inr aligned' \<Rightarrow>
                 aligned_loop sequence_lst rest aligned' (last_position + consumed_positions))
          else if operator = CHR ''D'' then
            aligned_loop sequence_lst rest
              (aligned @ replicate (nat consumed_positions) (CHR ''.'')) last_position
          else if operator = CHR ''I'' then
            aligned_loop sequence_lst rest aligned (last_position + consumed_positions)
          else aligned_loop sequence_lst rest aligned last_position)"

text \<open>
  What \<open>get_aligned_sequence\<close> returns: the warning text, or the pair of the aligned
  sequence and the rightmost position.
\<close>

datatype aligned_result = Warning string | Aligned string int

definition get_aligned_sequence :: "read \<Rightarrow> error + read \<times> aligned_result" where
  "get_aligned_sequence r =
     (if is_new_empty_list (parsed_cigar r)
      then Inr (r, Warning ''WARNING: no cigar string found for this read'')
      else
        (case aligned_loop (sequence r) (parsed_cigar r) (aligned_sequence r) 0 of
           Inl e \<Rightarrow> Inl e
         | Inr (aligned, last_position) \<Rightarrow>
             let rightmost = leftmost_position r + int (length aligned)
             in Inr (r\<lparr>aligned_sequence := aligned, rightmost_position := Some rightmost\<rparr>,
                     Aligned aligned rightmost)))"

text \<open>\<open>Read(sam_line)\<close> followed by \<open>parse_cigar()\<close> and \<open>get_aligned_sequence()\<close>, as \<open>main\<close> calls them.\<close>

definition new_read :: "string \<Rightarrow> int \<Rightarrow> int \<Rightarrow> int \<Rightarrow> string \<Rightarrow> string \<Rightarrow> read" where
  "new_read i f l q c s =
     \<lparr>read_id = i, flag = f, leftmost_position = l, quality = q, cigar_lst = c, sequence = s,
      parsed_cigar = [], aligned_sequence = [], rightmost_position = None\<rparr>"

definition reconstruct :: "read \<Rightarrow> error + read \<times> aligned_result" where
  "reconstruct r = get_aligned_sequence (parse_cigar r)"

section \<open>AlignmentInformation.py: the evidence tables\<close>

text \<open>
  Python dictionaries keep their keys in insertion order, so a dictionary is an
  association list with distinct keys: \<open>map_of\<close> looks a key up, \<open>AList.update\<close>
  assigns (in place for a key that exists, at the end for a new one), and a \<open>for\<close> loop
  over the dictionary visits the entries in list order.

  The counters are Python floats that start at \<open>0.0\<close> and only ever grow by \<open>1\<close>; they
  are whole numbers and are modelled as naturals.  The percentages are floats rounded to
  two decimals; exact rationals stand in for them.
\<close>

type_synonym tally = "(string \<times> nat) list"

type_synonym count_dict = "(int \<times> tally) list"

text \<open>
  A value stored in a position's entry of \<open>proportion_dictionary\<close>: a percentage, or the
  list stored under the key \<open>Present Nucleotides\<close>.
\<close>

datatype pvalue = Percent rat | Nucleotides "string list"

type_synonym proportions = "(string \<times> pvalue) list"

type_synonym proportion_dict = "(int \<times> proportions) list"

text \<open>
  The attributes of class \<open>AlignmentInformation\<close>.  \<open>reference_panel\<close> stands for the
  reference file: the pairs of allele id and full sequence (region separators removed)
  that the lines \<open>[12:-1]\<close> of the file yield, in file order.  A memo entry of
  \<open>processed_reads_dictionary\<close> is the list \<open>[leftmost, rightmost]\<close> of a record.
\<close>

record alignment_information =
  reference_panel :: "(string \<times> string) list"
  count_dictionary :: count_dict
  proportion_dictionary :: proportion_dict
  reference_alleles :: "string list"
  processed_reads_dictionary :: "(string \<times> int \<times> int option) list"

definition empty_tally :: tally where
  "empty_tally = [(''A'', 0), (''T'', 0), (''G'', 0), (''C'', 0), (''.'', 0)]"

text \<open>\<open>AlignmentInformation(reference)\<close>, from the panel and \<open>reference.exons_index_list\<close>.\<close>

definition new_alignment_information ::
    "(string \<times> string) list \<Rightarrow> (int \<times> int) list \<Rightarrow> alignment_information" where
  "new_alignment_information panel exons_index_list =
     \<lparr>reference_panel = panel,
      count_dictionary =
        foldl (\<lambda>cd i. AList.update i empty_tally cd) []
          (concat (map (\<lambda>exon_range. py_range (fst exon_range) (snd exon_range)) exons_index_list)),
      proportion_dictionary = [],
      reference_alleles = map fst panel,
      processed_reads_dictionary = []\<rparr>"

text \<open>One round of the loop over \<open>aligned_sequence\<close> in \<open>update_count_dictionary\<close>.\<close>

definition tally_step :: "count_dict \<Rightarrow> int list \<Rightarrow> char \<Rightarrow> int \<Rightarrow> error + count_dict" where
  "tally_step cd overlapping nucleotide position =
     (if nucleotide = CHR ''N'' then Inr cd
      else
        (case map_of cd position of
           None \<Rightarrow> Inr cd
         | Some t \<Rightarrow>
             if position \<in> set overlapping then Inr cd
             else
               (case map_of t [nucleotide] of
                  None \<Rightarrow> Inl KeyError
                | Some n \<Rightarrow> Inr (AList.update position (AList.update [nucleotide] (n + 1) t) cd))))"

fun tally_loop :: "count_dict \<Rightarrow> int list \<Rightarrow> string \<Rightarrow> int \<Rightarrow> error + count_dict" where
  "tally_loop cd overlapping [] position = Inr cd"
| "tally_loop cd overlapping (nucleotide # rest) position =
     (case tally_step cd overlapping nucleotide position of
        Inl e \<Rightarrow> Inl e
      | Inr cd' \<Rightarrow> tally_loop cd' overlapping rest (position + 1))"

text \<open>
  \<open>range(l, r)\<close> with \<open>r = None\<close> raises \<open>TypeError\<close>; a record has \<open>rightmost_position = None\<close>
  until \<open>get_aligned_sequence\<close> has run on it.
\<close>

definition update_count_dictionary ::
    "alignment_information \<Rightarrow> read \<Rightarrow> error + alignment_information" where
  "update_count_dictionary a r =
     (case map_of (processed_reads_dictionary a) (read_id r) of
        Some memo \<Rightarrow>
          (case rightmost_position r of
             None \<Rightarrow> Inl TypeError
           | Some rightmost \<Rightarrow>
               (case snd memo of
                  None \<Rightarrow> Inl TypeError
                | Some memo_rightmost \<Rightarrow>
                    let paired_reads_overlapping_positions =
                          filter (\<lambda>p. p \<in> set (py_range (fst memo) memo_rightmost))
                            (py_range (leftmost_position r) rightmost)
                    in (case tally_loop (count_dictionary a) paired_reads_overlapping_positions
                               (aligned_sequence r) (leftmost_position r) of
                          Inl e \<Rightarrow> Inl e
                        | Inr cd \<Rightarrow> Inr (a\<lparr>count_dictionary := cd\<rparr>))))
      | None \<Rightarrow>
          let a' = a\<lparr>processed_reads_dictionary :=
                      AList.update (read_id r) (leftmost_position r, rightmost_position r)
                        (processed_reads_dictionary a)\<rparr>
          in (case tally_loop (count_dictionary a') [] (aligned_sequence r) (leftmost_position r) of
                Inl e \<Rightarrow> Inl e
              | Inr cd \<Rightarrow> Inr (a'\<lparr>count_dictionary := cd\<rparr>)))"


text \<open>\<open>round(x, 2)\<close>: to the nearest hundredth, a tie to the even one.\<close>

definition round_half_even :: "rat \<Rightarrow> int" where
  "round_half_even x =
     (let f = \<lfloor>x\<rfloor>; d = x - of_int f
      in if d < 1 / 2 then f else if 1 / 2 < d then f + 1 else if even f then f else f + 1)"

definition py_round2 :: "rat \<Rightarrow> rat" where
  "py_round2 x = of_int (round_half_even (x * 100)) / 100"

text \<open>
  The inner loop of \<open>create_proportion_dictionary\<close> over the symbols of one position.
  Dividing by a zero \<open>nucleotide_count\<close> raises \<open>ZeroDivisionError\<close>.
\<close>

fun proportions_loop :: "nat \<Rightarrow> tally \<Rightarrow> proportions \<Rightarrow> error + proportions" where
  "proportions_loop nucleotide_count [] props = Inr props"
| "proportions_loop nucleotide_count ((nucleotide, n) # rest) props =
     (if nucleotide_count = 0 then Inl ZeroDivisionError
      else proportions_loop nucleotide_count rest
             (AList.update nucleotide
                (Percent (py_round2 (of_nat n / of_nat nucleotide_count * 100))) props))"

fun create_loop :: "count_dict \<Rightarrow> proportion_dict \<Rightarrow> error + proportion_dict" where
  "create_loop [] pd = Inr pd"
| "create_loop ((position, t) # rest) pd =
     (case proportions_loop (sum_list (map snd t)) t [] of
        Inl e \<Rightarrow> Inl e
      | Inr props \<Rightarrow> create_loop rest (AList.update position props pd))"

definition create_proportion_dictionary ::
    "alignment_information \<Rightarrow> error + alignment_information" where
  "create_proportion_dictionary a =
     (case create_loop (count_dictionary a) (proportion_dictionary a) of
        Inl e \<Rightarrow> Inl e
      | Inr pd \<Rightarrow> Inr (a\<lparr>proportion_dictionary := pd\<rparr>))"

section \<open>ProgressiveAnalysis.py: the elimination of alleles\<close>

text \<open>
  The loop that collects \<open>present_nucleotides\<close> for one position.  Comparing a list with
  the threshold (\<open>>\<close>) raises \<open>TypeError\<close>.
\<close>

fun present_loop :: "proportions \<Rightarrow> rat \<Rightarrow> string list \<Rightarrow> error + string list" where
  "present_loop [] proportion_threshold present = Inr present"
| "present_loop ((nucleotide, v) # rest) proportion_threshold present =
     (case v of
        Percent p \<Rightarrow>
          present_loop rest proportion_threshold
            (if proportion_threshold < p then present @ [nucleotide] else present)
      | Nucleotides ns \<Rightarrow> Inl TypeError)"

text \<open>
  The loop over the alleles of the reference file for one position: an allele still in
  \<open>primary_result_alleles\<close> whose symbol at the position is not present is removed
  (\<open>list.remove\<close> deletes the first occurrence).
\<close>

fun discard_loop ::
    "(string \<times> string) list \<Rightarrow> int \<Rightarrow> string list \<Rightarrow> string list \<Rightarrow> error + string list" where
  "discard_loop [] position present primary = Inr primary"
| "discard_loop ((allele_id, allele_sequence) # rest) position present primary =
     (if allele_id \<in> set primary then
        (case py_index allele_sequence position of
           Inl e \<Rightarrow> Inl e
         | Inr n \<Rightarrow>
             discard_loop rest position present
               (if [n] \<notin> set present then remove1 allele_id primary else primary))
      else discard_loop rest position present primary)"

definition present_key :: string where
  "present_key = ''Present Nucleotides''"

text \<open>
  The loop over the positions of \<open>proportion_dictionary\<close>.  \<open>primary_result_alleles\<close> is
  another name for the list \<open>reference_alleles\<close> of the alignment information, so that
  list shrinks with it; the name is bound only inside the loop (\<open>bound\<close>).  The rows
  are visited as the dictionary holds them when the loop starts: a round assigns only
  inside the entry of its own position, after it has read it.
\<close>

fun position_loop ::
    "proportion_dict \<Rightarrow> rat \<Rightarrow> alignment_information \<Rightarrow> bool \<Rightarrow>
     error + alignment_information \<times> bool" where
  "position_loop [] proportion_threshold a bound = Inr (a, bound)"
| "position_loop ((position, entry) # rest) proportion_threshold a bound =
     (case present_loop entry proportion_threshold [] of
        Inl e \<Rightarrow> Inl e
      | Inr present \<Rightarrow>
          let a1 = a\<lparr>proportion_dictionary :=
                      AList.update position
                        (AList.update present_key (Nucleotides present) entry)
                        (proportion_dictionary a)\<rparr>
          in (case discard_loop (reference_panel a1) position present (reference_alleles a1) of
                Inl e \<Rightarrow> Inl e
              | Inr primary \<Rightarrow>
                  position_loop rest proportion_threshold (a1\<lparr>reference_alleles := primary\<rparr>) True))"

text \<open>
  \<open>ProgressiveAnalysis(alignment, proportion_threshold)\<close> up to the call
  \<open>self.process_result_alleles(primary_result_alleles)\<close>: the alignment information as the
  loop leaves it, and the list handed to \<open>process_result_alleles\<close>.  With no position at
  all the name \<open>primary_result_alleles\<close> is unbound at that call.
\<close>

definition progressive_filter ::
    "alignment_information \<Rightarrow> rat \<Rightarrow> error + alignment_information \<times> string list" where
  "progressive_filter a proportion_threshold =
     (case position_loop (proportion_dictionary a) proportion_threshold a False of
        Inl e \<Rightarrow> Inl e
      | Inr (a', bound) \<Rightarrow>
          if bound then Inr (a', reference_alleles a') else Inl UnboundLocalError)"

section \<open>CombinedAnalysis.py: matching genotype combinations\<close>

text \<open>
  \<open>result_alleles_dictionary\<close> of the progressive analysis once
  \<open>get_result_alleles_coding_sequences\<close> has filled it: for every gene, for every result
  allele, its coding sequence (one symbol for each position of \<open>proportion_dictionary\<close>).
\<close>

type_synonym result_alleles = "(string \<times> (string \<times> string) list) list"

type_synonym combination = "(string \<times> string) list"

text \<open>\<open>itertools.combinations_with_replacement(xs, 2)\<close>.\<close>

fun combinations_with_replacement2 :: "'a list \<Rightarrow> ('a \<times> 'a) list" where
  "combinations_with_replacement2 [] = []"
| "combinations_with_replacement2 (x # xs) =
     map (Pair x) (x # xs) @ combinations_with_replacement2 xs"

text \<open>\<open>itertools.product\<close> of the lists of pairs, one list for each gene.\<close>

definition all_genotype_combinations :: "result_alleles \<Rightarrow> combination list" where
  "all_genotype_combinations rad =
     product_lists (map (\<lambda>gene. combinations_with_replacement2 (map fst (snd gene))) rad)"

text \<open>The gene of an allele name: the text before the first \<open>*\<close>, with the two 2DL5 names merged.\<close>

definition kir_gene_of :: "string \<Rightarrow> string" where
  "kir_gene_of allele =
     (let kir_gene = takeWhile (\<lambda>c. c \<noteq> CHR ''*'') allele
      in if kir_gene = ''KIR2DL5A'' \<or> kir_gene = ''KIR2DL5B'' then ''KIR2DL5'' else kir_gene)"

text \<open>The present symbols of a position without the gap, read from the key \<open>Present Nucleotides\<close>.\<close>

definition non_gap_present :: "proportions \<Rightarrow> error + string list" where
  "non_gap_present entry =
     (case map_of entry present_key of
        None \<Rightarrow> Inl KeyError
      | Some (Percent p) \<Rightarrow> Inl TypeError
      | Some (Nucleotides ns) \<Rightarrow> Inr (filter (\<lambda>nucleotide. nucleotide \<noteq> ''.'') ns))"

text \<open>\<open>coding_sequences_per_position\<close>: for every gene, for every allele, its symbol at the position.\<close>

fun allele_symbols ::
    "(string \<times> string) list \<Rightarrow> nat \<Rightarrow> (string \<times> char) list \<Rightarrow> error + (string \<times> char) list" where
  "allele_symbols [] coding_position symbols = Inr symbols"
| "allele_symbols ((allele, coding_sequence) # rest) coding_position symbols =
     (case py_index coding_sequence (int coding_position) of
        Inl e \<Rightarrow> Inl e
      | Inr n \<Rightarrow> allele_symbols rest coding_position (AList.update allele n symbols))"

type_synonym position_symbols = "(string \<times> (string \<times> char) list) list"

fun gene_symbols :: "result_alleles \<Rightarrow> nat \<Rightarrow> position_symbols \<Rightarrow> error + position_symbols" where
  "gene_symbols [] coding_position csp = Inr csp"
| "gene_symbols ((kir_gene, alleles) # rest) coding_position csp =
     (case allele_symbols alleles coding_position [] of
        Inl e \<Rightarrow> Inl e
      | Inr symbols \<Rightarrow> gene_symbols rest coding_position (AList.update kir_gene symbols csp))"

definition coding_sequences_per_position :: "result_alleles \<Rightarrow> nat \<Rightarrow> error + position_symbols" where
  "coding_sequences_per_position rad coding_position = gene_symbols rad coding_position []"

text \<open>\<open>is_discriminant\<close>: some gene has more than one distinct symbol (\<open>np.unique\<close>).\<close>

definition is_discriminant :: "position_symbols \<Rightarrow> bool" where
  "is_discriminant csp = list_ex (\<lambda>gene. 1 < length (remdups (map snd (snd gene)))) csp"

text \<open>The symbols covered by one combination, looked up by gene and allele.\<close>

fun covered_loop :: "position_symbols \<Rightarrow> string list \<Rightarrow> string list \<Rightarrow> error + string list" where
  "covered_loop csp [] covered = Inr covered"
| "covered_loop csp (allele # rest) covered =
     (case map_of csp (kir_gene_of allele) of
        None \<Rightarrow> Inl KeyError
      | Some symbols \<Rightarrow>
          (case map_of symbols allele of
             None \<Rightarrow> Inl KeyError
           | Some n \<Rightarrow> covered_loop csp rest (covered @ [[n]])))"

definition alleles_of :: "combination \<Rightarrow> string list" where
  "alleles_of c = concat (map (\<lambda>single_gene_combination.
                                 [fst single_gene_combination, snd single_gene_combination]) c)"

definition covered_nucleotides :: "position_symbols \<Rightarrow> combination \<Rightarrow> error + string list" where
  "covered_nucleotides csp c = covered_loop csp (alleles_of c) []"

fun check_loop ::
    "combination list \<Rightarrow> position_symbols \<Rightarrow> string list \<Rightarrow> combination list \<Rightarrow>
     error + combination list" where
  "check_loop [] csp present combinations_in_position = Inr combinations_in_position"
| "check_loop (c # rest) csp present combinations_in_position =
     (case covered_nucleotides csp c of
        Inl e \<Rightarrow> Inl e
      | Inr covered \<Rightarrow>
          check_loop rest csp present
            (if set present \<subseteq> set covered then combinations_in_position @ [c]
             else combinations_in_position))"

text \<open>\<open>check_genotype_combinations\<close>: the list it appends to \<open>genotype_combinations_per_position\<close>.\<close>

definition check_genotype_combinations ::
    "combination list \<Rightarrow> position_symbols \<Rightarrow> string list \<Rightarrow> error + combination list" where
  "check_genotype_combinations all_combinations csp present =
     check_loop all_combinations csp present []"

text \<open>
  The body of the loop over the positions in \<open>find_matching_combinations_per_position\<close>:
  \<open>None\<close> when the position appends nothing, \<open>Some\<close> of the list it appends.
\<close>

definition match_position ::
    "result_alleles \<Rightarrow> combination list \<Rightarrow> nat \<Rightarrow> proportions \<Rightarrow>
     error + combination list option" where
  "match_position rad all_combinations coding_position entry =
     (case non_gap_present entry of
        Inl e \<Rightarrow> Inl e
      | Inr present \<Rightarrow>
          if 1 < length present then
            (case coding_sequences_per_position rad coding_position of
               Inl e \<Rightarrow> Inl e
             | Inr csp \<Rightarrow>
                 if is_discriminant csp then
                   (case check_genotype_combinations all_combinations csp present of
                      Inl e \<Rightarrow> Inl e
                    | Inr combinations_in_position \<Rightarrow> Inr (Some combinations_in_position))
                 else Inr None)
          else Inr None)"

fun matching_loop ::
    "result_alleles \<Rightarrow> combination list \<Rightarrow> nat \<Rightarrow> proportion_dict \<Rightarrow> combination list list \<Rightarrow>
     error + combination list list" where
  "matching_loop rad all_combinations coding_position [] per_position = Inr per_position"
| "matching_loop rad all_combinations coding_position ((alignment_position, entry) # rest) per_position =
     (case match_position rad all_combinations coding_position entry of
        Inl e \<Rightarrow> Inl e
      | Inr None \<Rightarrow> matching_loop rad all_combinations (Suc coding_position) rest per_position
      | Inr (Some combinations_in_position) \<Rightarrow>
          matching_loop rad all_combinations (Suc coding_position) rest
            (per_position @ [combinations_in_position]))"

text \<open>
  \<open>find_matching_combinations_per_position\<close>: \<open>all_genotype_combinations\<close> and
  \<open>genotype_combinations_per_position\<close> as it leaves them.
\<close>

definition find_matching_combinations_per_position ::
    "result_alleles \<Rightarrow> proportion_dict \<Rightarrow> error + combination list \<times> combination list list" where
  "find_matching_combinations_per_position rad pd =
     (let all_combinations = all_genotype_combinations rad
      in (case matching_loop rad all_combinations 0 pd [] of
            Inl e \<Rightarrow> Inl e
          | Inr per_position \<Rightarrow> Inr (all_combinations, per_position)))"

section \<open>KIRtyper.py: the loop over the alignment records\<close>

text \<open>\<open>read.is_aligned_to(region_range)\<close>, for a record whose rightmost position is set.\<close>

definition is_aligned_to :: "read \<Rightarrow> int \<times> int \<Rightarrow> error + bool" where
  "is_aligned_to r region_range =
     (case rightmost_position r of
        None \<Rightarrow> Inl TypeError
      | Some rightmost \<Rightarrow>
          Inr (list_ex (\<lambda>i. i \<in> set (py_range (fst region_range) (snd region_range)))
                 (py_range (leftmost_position r) rightmost)))"

text \<open>The loop over \<open>reference.exons_index_list\<close> that records a read at the first exon it overlaps.\<close>

fun exon_loop ::
    "alignment_information \<Rightarrow> read \<Rightarrow> (int \<times> int) list \<Rightarrow> error + alignment_information" where
  "exon_loop a r [] = Inr a"
| "exon_loop a r (exon_range # rest) =
     (case is_aligned_to r exon_range of
        Inl e \<Rightarrow> Inl e
      | Inr in_exons \<Rightarrow> if in_exons then update_count_dictionary a r else exon_loop a r rest)"

text \<open>
  The loop of \<open>main\<close> over the records of the alignment file.  Nothing catches an
  exception, so the first one ends the run.
\<close>

fun main_loop ::
    "alignment_information \<Rightarrow> (int \<times> int) list \<Rightarrow> read list \<Rightarrow> error + alignment_information" where
  "main_loop a exons_index_list [] = Inr a"
| "main_loop a exons_index_list (r # rest) =
     (if flag r \<noteq> 4 \<and> quality r = 255 then
        (case get_aligned_sequence (parse_cigar r) of
           Inl e \<Rightarrow> Inl e
         | Inr (r', returned) \<Rightarrow>
             (case exon_loop a r' exons_index_list of
                Inl e \<Rightarrow> Inl e
              | Inr a' \<Rightarrow> main_loop a' exons_index_list rest))
      else main_loop a exons_index_list rest)"

section \<open>The specification's vocabulary\<close>

subsection \<open>Operator descriptions\<close>






subsection \<open>Evidence\<close>

text \<open>
  A record as \<open>get_aligned_sequence\<close> leaves it: the rightmost position is the leftmost
  position plus the length of the aligned sequence.
\<close>

definition reconstructed :: "read \<Rightarrow> bool" where
  "reconstructed r =
     (rightmost_position r = Some (leftmost_position r + int (length (aligned_sequence r))))"

text \<open>The total tallied evidence at a position: the sum of its counters.\<close>

definition evidence_at :: "count_dict \<Rightarrow> int \<Rightarrow> nat" where
  "evidence_at cd position =
     (case map_of cd position of None \<Rightarrow> 0 | Some t \<Rightarrow> sum_list (map snd t))"

text \<open>One more for a symbol of a tally.\<close>

definition bump :: "string \<Rightarrow> tally \<Rightarrow> tally" where
  "bump nucleotide t =
     (case map_of t nucleotide of None \<Rightarrow> t | Some n \<Rightarrow> AList.update nucleotide (n + 1) t)"

text \<open>The symbol of a record at a reference position inside its range.\<close>

definition symbol_at :: "read \<Rightarrow> int \<Rightarrow> char" where
  "symbol_at r position = aligned_sequence r ! nat (position - leftmost_position r)"

text \<open>
  Whether recording \<open>r\<close> in state \<open>a\<close> tallies at a position: the position is in the
  range of the record and in the table, the symbol there is not \<open>N\<close>, and the position
  is outside the range memoized for the pairing id, if there is one.
\<close>

definition tallies_at :: "alignment_information \<Rightarrow> read \<Rightarrow> int \<Rightarrow> bool" where
  "tallies_at a r position =
     (leftmost_position r \<le> position \<and>
      position < leftmost_position r + int (length (aligned_sequence r)) \<and>
      symbol_at r position \<noteq> CHR ''N'' \<and>
      map_of (count_dictionary a) position \<noteq> None \<and>
      (case map_of (processed_reads_dictionary a) (read_id r) of
         None \<Rightarrow> True
       | Some memo \<Rightarrow>
           \<not> (fst memo \<le> position \<and>
              (case snd memo of None \<Rightarrow> False | Some memo_rightmost \<Rightarrow> position < memo_rightmost))))"

subsection \<open>Progressive filtering\<close>

text \<open>The present symbols of a position: every symbol whose percentage exceeds the threshold.\<close>

definition exceeds :: "rat \<Rightarrow> pvalue \<Rightarrow> bool" where
  "exceeds proportion_threshold v =
     (case v of Percent p \<Rightarrow> proportion_threshold < p | Nucleotides ns \<Rightarrow> False)"

definition present_symbols :: "proportions \<Rightarrow> rat \<Rightarrow> string list" where
  "present_symbols entry proportion_threshold =
     map fst (filter (\<lambda>kv. exceeds proportion_threshold (snd kv)) entry)"

text \<open>An allele of the panel whose symbol at a position is among the present ones.\<close>

definition nucleotide_present :: "(string \<times> string) list \<Rightarrow> int \<Rightarrow> string list \<Rightarrow> string \<Rightarrow> bool" where
  "nucleotide_present panel position present allele =
     (case map_of panel allele of
        None \<Rightarrow> False
      | Some allele_sequence \<Rightarrow>
          (case py_index allele_sequence position of
             Inl e \<Rightarrow> False
           | Inr n \<Rightarrow> [n] \<in> set present))"

text \<open>What the loop over the reference alleles keeps: it only ever removes alleles of the panel.\<close>

definition keeps :: "(string \<times> string) list \<Rightarrow> int \<Rightarrow> string list \<Rightarrow> string \<Rightarrow> bool" where
  "keeps panel position present allele =
     (allele \<in> fst ` set panel \<longrightarrow> nucleotide_present panel position present allele)"


text \<open>An entry of the table as \<open>create_proportion_dictionary\<close> leaves it: percentages only.\<close>

definition percentages_only :: "proportions \<Rightarrow> bool" where
  "percentages_only entry =
     list_all (\<lambda>kv. case snd kv of Percent p \<Rightarrow> True | Nucleotides ns \<Rightarrow> False) entry"

text \<open>
  The data model's invariants on the input of the filter: the allele ids of the panel
  are unique and are the candidates, every sequence of the panel has a symbol at every
  position of the Proportion Table, the table's positions are unique and its entries
  hold percentages only.
\<close>

definition has_symbol_at :: "int \<Rightarrow> string \<Rightarrow> bool" where
  "has_symbol_at position allele_sequence =
     (case py_index allele_sequence position of Inl e \<Rightarrow> False | Inr n \<Rightarrow> True)"

definition well_formed_input :: "alignment_information \<Rightarrow> bool" where
  "well_formed_input a =
     (distinct (map fst (reference_panel a)) \<and>
      reference_alleles a = map fst (reference_panel a) \<and>
      distinct (map fst (proportion_dictionary a)) \<and>
      list_all (\<lambda>row. list_all (\<lambda>allele. has_symbol_at (fst row) (snd allele)) (reference_panel a))
        (proportion_dictionary a) \<and>
      list_all (\<lambda>row. percentages_only (snd row)) (proportion_dictionary a))"

text \<open>The entry of a position once the filter has stored the present symbols in it.\<close>

definition with_present :: "rat \<Rightarrow> proportions \<Rightarrow> proportions" where
  "with_present proportion_threshold entry =
     AList.update present_key (Nucleotides (present_symbols entry proportion_threshold)) entry"

definition store_present :: "rat \<Rightarrow> proportion_dict \<Rightarrow> int \<times> proportions \<Rightarrow> proportion_dict" where
  "store_present proportion_threshold pd row =
     AList.update (fst row) (with_present proportion_threshold (snd row)) pd"

subsection \<open>Combination matching\<close>

text \<open>
  The result alleles as the progressive analysis builds them: the genes are unique, the
  alleles of a gene are unique and are filed under the gene of their name, and every
  coding sequence has a symbol at the coding position looked at.
\<close>

definition well_formed_results :: "result_alleles \<Rightarrow> nat \<Rightarrow> bool" where
  "well_formed_results rad coding_position =
     (distinct (map fst rad) \<and>
      list_all (\<lambda>gene. distinct (map fst (snd gene)) \<and>
                  list_all (\<lambda>allele. kir_gene_of (fst allele) = fst gene \<and>
                                      coding_position < length (snd allele)) (snd gene)) rad)"



text \<open>The symbols of the alleles of every gene at a coding position.\<close>

definition symbols_at :: "result_alleles \<Rightarrow> nat \<Rightarrow> position_symbols" where
  "symbols_at rad coding_position =
     map (\<lambda>gene. (fst gene, map (\<lambda>allele. (fst allele, snd allele ! coding_position)) (snd gene))) rad"

section \<open>Concrete inputs\<close>

text \<open>
  A panel of two alleles of one gene that differ at position 1, the only exon position,
  and a longer one with the exon positions 1 and 2.
\<close>

definition small_panel :: "(string \<times> string) list" where
  "small_panel = [(''G1*001'', ''AC''), (''G1*002'', ''AG'')]"

definition small_information :: alignment_information where
  "small_information = new_alignment_information small_panel [(1, 2)]"

definition wide_panel :: "(string \<times> string) list" where
  "wide_panel = [(''G1*001'', ''ACGT''), (''G1*002'', ''AGGT'')]"

definition wide_information :: alignment_information where
  "wide_information = new_alignment_information wide_panel [(1, 3)]"

text \<open>A reconstructed record with the flag and quality that \<open>main\<close> admits.\<close>

definition aligned_read :: "string \<Rightarrow> int \<Rightarrow> string \<Rightarrow> read" where
  "aligned_read i l s =
     \<lparr>read_id = i, flag = 0, leftmost_position = l, quality = 255,
      cigar_lst = [], sequence = s, parsed_cigar = [], aligned_sequence = s,
      rightmost_position = Some (l + int (length s))\<rparr>"

text \<open>Tables of percentages for the two panels, and the second one with its rows swapped.\<close>

definition small_proportions :: alignment_information where
  "small_proportions =
     small_information
       \<lparr>count_dictionary :=
          [(1, [(''A'', 0), (''T'', 0), (''G'', 1), (''C'', 1), (''.'', 0)])],
        proportion_dictionary :=
          [(1, [(''A'', Percent 0), (''T'', Percent 0), (''G'', Percent 50), (''C'', Percent 50),
                (''.'', Percent 0)])]\<rparr>"



text \<open>
  Result alleles of two genes at one coding position, and the entry of a position where
  \<open>G\<close>, \<open>C\<close> and the gap are present.
\<close>

definition sample_results :: result_alleles where
  "sample_results =
     [(''G1'', [(''G1*001'', ''C''), (''G1*002'', ''G'')]), (''G2'', [(''G2*001'', ''.'')])]"

definition sample_entry :: proportions where
  "sample_entry =
     [(''A'', Percent 0), (''T'', Percent 0), (''G'', Percent 40), (''C'', Percent 40),
      (''.'', Percent 20), (''Present Nucleotides'', Nucleotides [''G'', ''C'', ''.''])]"

section \<open>Alignment reconstruction\<close>

















subsection \<open>Descriptions that are empty or hold another operator\<close>







lemma empty_description_zero_length:
  "reconstruct (new_read i f l q [] s) =
     Inr (new_read i f l q [] s \<lparr>rightmost_position := Some l\<rparr>, Aligned [] l)"
  by (simp add: reconstruct_def get_aligned_sequence_def parse_cigar_def new_read_def
      is_new_empty_list_def)



section \<open>Evidence accumulation\<close>

lemma in_py_range: "p \<in> set (py_range a b) \<longleftrightarrow> a \<le> p \<and> p < b"
  by (auto simp: py_range_def)

lemma sum_bump:
  "map_of t x = Some n \<Longrightarrow> sum_list (map snd (AList.update x (n + 1) t)) = Suc (sum_list (map snd t))"
  by (induction t) (auto split: if_splits)

lemma tally_step_map_of:
  assumes "tally_step cd overlapping n l = Inr cd'"
  shows "map_of cd' p =
           (if p = l \<and> p \<notin> set overlapping \<and> n \<noteq> CHR ''N''
            then map_option (bump [n]) (map_of cd p) else map_of cd p)"
  using assms
  by (auto simp: tally_step_def bump_def update_conv' split: if_splits option.splits)

lemma tally_step_key:
  assumes "tally_step cd overlapping n l = Inr cd'" "l \<notin> set overlapping" "n \<noteq> CHR ''N''"
    "map_of cd l = Some t"
  shows "map_of t [n] \<noteq> None"
  using assms
  by (auto simp: tally_step_def split: if_splits option.splits)

lemma tally_loop_map_of:
  "tally_loop cd overlapping s l = Inr cd' \<Longrightarrow>
   map_of cd' p =
     (if l \<le> p \<and> p < l + int (length s) \<and> p \<notin> set overlapping \<and> s ! nat (p - l) \<noteq> CHR ''N''
      then map_option (bump [s ! nat (p - l)]) (map_of cd p) else map_of cd p)"
proof (induction s arbitrary: cd l)
  case Nil
  then show ?case by auto
next
  case (Cons n rest)
  from Cons.prems obtain cd1 where
    step: "tally_step cd overlapping n l = Inr cd1"
    and loop: "tally_loop cd1 overlapping rest (l + 1) = Inr cd'"
    by (auto split: sum.splits)
  note s1 = tally_step_map_of [OF step, of p]
  note s2 = Cons.IH [OF loop]
  show ?case
  proof (cases "p = l")
    case True
    with s1 s2 show ?thesis by simp
  next
    case False
    have "l < p \<Longrightarrow> nat (p - l) = Suc (nat (p - (l + 1)))" by simp
    with False s1 s2 show ?thesis by auto
  qed
qed

lemma tally_loop_key:
  "tally_loop cd overlapping s l = Inr cd' \<Longrightarrow> l \<le> p \<Longrightarrow> p < l + int (length s) \<Longrightarrow>
   p \<notin> set overlapping \<Longrightarrow> s ! nat (p - l) \<noteq> CHR ''N'' \<Longrightarrow> map_of cd p = Some t \<Longrightarrow>
   map_of t [s ! nat (p - l)] \<noteq> None"
proof (induction s arbitrary: cd l)
  case Nil
  then show ?case by simp
next
  case (Cons n rest)
  from Cons.prems(1) obtain cd1 where
    step: "tally_step cd overlapping n l = Inr cd1"
    and loop: "tally_loop cd1 overlapping rest (l + 1) = Inr cd'"
    by (auto split: sum.splits)
  show ?case
  proof (cases "p = l")
    case True
    with Cons.prems tally_step_key [OF step] show ?thesis by simp
  next
    case False
    with Cons.prems have lt: "l + 1 \<le> p" "p < l + 1 + int (length rest)" by simp_all
    have idx: "nat (p - l) = Suc (nat (p - (l + 1)))" using lt by simp
    from False tally_step_map_of [OF step, of p] Cons.prems(6)
    have "map_of cd1 p = Some t" by simp
    from Cons.IH [OF loop lt Cons.prems(4) _ this] Cons.prems(5) idx
    show ?thesis by simp
  qed
qed

lemma tally_loop_evidence:
  assumes "tally_loop cd overlapping s l = Inr cd'"
  shows "evidence_at cd' p =
           evidence_at cd p +
           (if l \<le> p \<and> p < l + int (length s) \<and> p \<notin> set overlapping \<and>
               s ! nat (p - l) \<noteq> CHR ''N'' \<and> map_of cd p \<noteq> None then 1 else 0)"
proof (cases "l \<le> p \<and> p < l + int (length s) \<and> p \<notin> set overlapping \<and>
               s ! nat (p - l) \<noteq> CHR ''N'' \<and> map_of cd p \<noteq> None")
  case True
  then obtain t where t: "map_of cd p = Some t" by auto
  with True tally_loop_key [OF assms, of p t] obtain n where
    n: "map_of t [s ! nat (p - l)] = Some n" by auto
  from True t tally_loop_map_of [OF assms, of p]
  have "map_of cd' p = Some (bump [s ! nat (p - l)] t)" by simp
  with True t n sum_bump [OF n] show ?thesis
    by (simp add: evidence_at_def bump_def)
next
  case False
  with tally_loop_map_of [OF assms, of p] show ?thesis
    by (auto simp: evidence_at_def)
qed

lemma update_count_dictionary_evidence:
  assumes "update_count_dictionary a r = Inr a'" "reconstructed r"
  shows "evidence_at (count_dictionary a') p =
           evidence_at (count_dictionary a) p + (if tallies_at a r p then 1 else 0)"
proof (cases "map_of (processed_reads_dictionary a) (read_id r)")
  case None
  with assms(1) obtain cd where
    loop: "tally_loop (count_dictionary a) [] (aligned_sequence r) (leftmost_position r) = Inr cd"
    and a': "count_dictionary a' = cd"
    by (auto simp: update_count_dictionary_def Let_def split: sum.splits)
  from tally_loop_evidence [OF loop, of p] a' None show ?thesis
    by (simp add: tallies_at_def symbol_at_def)
next
  case (Some memo)
  with assms obtain memo_rightmost cd where
    mr: "snd memo = Some memo_rightmost"
    and loop: "tally_loop (count_dictionary a)
        (filter (\<lambda>p. p \<in> set (py_range (fst memo) memo_rightmost))
           (py_range (leftmost_position r)
              (leftmost_position r + int (length (aligned_sequence r)))))
        (aligned_sequence r) (leftmost_position r) = Inr cd"
    and a': "count_dictionary a' = cd"
    by (auto simp: update_count_dictionary_def reconstructed_def Let_def
        split: sum.splits option.splits)
  from tally_loop_evidence [OF loop, of p] a' Some mr show ?thesis
    by (auto simp: tallies_at_def symbol_at_def in_py_range)
qed

lemma update_count_dictionary_memo:
  assumes "update_count_dictionary a r = Inr a'"
  shows "map_of (processed_reads_dictionary a') i =
           (case map_of (processed_reads_dictionary a) i of
              Some memo \<Rightarrow> Some memo
            | None \<Rightarrow>
                if i = read_id r then Some (leftmost_position r, rightmost_position r)
                else None)"
  using assms
  by (auto simp: update_count_dictionary_def Let_def update_conv'
      split: sum.splits option.splits)


lemma update_count_dictionary_untouched:
  assumes "update_count_dictionary a r = Inr a'" "reconstructed r" "\<not> tallies_at a r p"
  shows "map_of (count_dictionary a') p = map_of (count_dictionary a) p"
proof (cases "map_of (processed_reads_dictionary a) (read_id r)")
  case None
  with assms(1) obtain cd where
    loop: "tally_loop (count_dictionary a) [] (aligned_sequence r) (leftmost_position r) = Inr cd"
    and a': "count_dictionary a' = cd"
    by (auto simp: update_count_dictionary_def Let_def split: sum.splits)
  from tally_loop_map_of [OF loop, of p] a' None assms(3) show ?thesis
    by (auto simp: tallies_at_def symbol_at_def)
next
  case (Some memo)
  with assms obtain memo_rightmost cd where
    mr: "snd memo = Some memo_rightmost"
    and loop: "tally_loop (count_dictionary a)
        (filter (\<lambda>p. p \<in> set (py_range (fst memo) memo_rightmost))
           (py_range (leftmost_position r)
              (leftmost_position r + int (length (aligned_sequence r)))))
        (aligned_sequence r) (leftmost_position r) = Inr cd"
    and a': "count_dictionary a' = cd"
    by (auto simp: update_count_dictionary_def reconstructed_def Let_def
        split: sum.splits option.splits)
  from tally_loop_map_of [OF loop, of p] a' Some mr assms(3) show ?thesis
    by (auto simp: tallies_at_def symbol_at_def in_py_range)
qed

text \<open>
  Claim C4, as the code has it.  Two records share a pairing id that has no memo entry
  yet, and a position of the table lies in the range of both.  Recording the second one
  leaves the tally at that position as the first one left it, so the position never
  receives two contributions; it receives exactly one when the symbol of the
  first-processed record there is not \<open>N\<close>, and none when it is \<open>N\<close>.
\<close>

theorem mate_overlap_counted_once:
  assumes "map_of (processed_reads_dictionary a) (read_id r1) = None"
    and "read_id r2 = read_id r1"
    and "reconstructed r1" and "reconstructed r2"
    and "update_count_dictionary a r1 = Inr a1"
    and "update_count_dictionary a1 r2 = Inr a2"
    and "leftmost_position r1 \<le> p" and "p < leftmost_position r1 + int (length (aligned_sequence r1))"
    and "leftmost_position r2 \<le> p" and "p < leftmost_position r2 + int (length (aligned_sequence r2))"
    and "map_of (count_dictionary a) p \<noteq> None"
  shows "map_of (count_dictionary a2) p = map_of (count_dictionary a1) p \<and>
         evidence_at (count_dictionary a2) p =
           evidence_at (count_dictionary a) p + (if symbol_at r1 p = CHR ''N'' then 0 else 1)"
proof -
  have first: "tallies_at a r1 p \<longleftrightarrow> symbol_at r1 p \<noteq> CHR ''N''"
    using assms(1,7,8,11) by (simp add: tallies_at_def)
  have "map_of (processed_reads_dictionary a1) (read_id r2) =
      Some (leftmost_position r1, rightmost_position r1)"
    using update_count_dictionary_memo [OF assms(5), of "read_id r2"] assms(1,2) by simp
  with assms(3,7,8) have second: "\<not> tallies_at a1 r2 p"
    by (simp add: tallies_at_def reconstructed_def)
  from update_count_dictionary_untouched [OF assms(6,4) second]
    update_count_dictionary_evidence [OF assms(5,3), of p]
    update_count_dictionary_evidence [OF assms(6,4), of p] first second
  show ?thesis by simp
qed

theorem mate_overlap_counted_once_witness:
  "update_count_dictionary small_information (aligned_read ''p'' 0 ''AC'') =
     Inr (small_information
            \<lparr>count_dictionary := [(1, [(''A'', 0), (''T'', 0), (''G'', 0), (''C'', 1), (''.'', 0)])],
             processed_reads_dictionary := [(''p'', 0, Some 2)]\<rparr>) \<and>
   update_count_dictionary
     (small_information
        \<lparr>count_dictionary := [(1, [(''A'', 0), (''T'', 0), (''G'', 0), (''C'', 1), (''.'', 0)])],
         processed_reads_dictionary := [(''p'', 0, Some 2)]\<rparr>)
     (aligned_read ''p'' 1 ''GT'') =
     Inr (small_information
            \<lparr>count_dictionary := [(1, [(''A'', 0), (''T'', 0), (''G'', 0), (''C'', 1), (''.'', 0)])],
             processed_reads_dictionary := [(''p'', 0, Some 2)]\<rparr>) \<and>
   evidence_at [(1, [(''A'', 0), (''T'', 0), (''G'', 0), (''C'', 1), (''.'', 0)])] 1 =
     evidence_at (count_dictionary small_information) 1 + 1"
proof -
  let ?a1 = "small_information
            \<lparr>count_dictionary := [(1, [(''A'', 0), (''T'', 0), (''G'', 0), (''C'', 1), (''.'', 0)])],
             processed_reads_dictionary := [(''p'', 0, Some 2)]\<rparr>"
  let ?r1 = "aligned_read ''p'' 0 ''AC''"
  let ?r2 = "aligned_read ''p'' 1 ''GT''"
  have u1: "update_count_dictionary small_information ?r1 = Inr ?a1"
    by code_simp
  have u2: "update_count_dictionary ?a1 ?r2 = Inr ?a1"
    by code_simp
  have h1: "map_of (processed_reads_dictionary small_information) (read_id ?r1) = None"
    by (simp add: small_information_def new_alignment_information_def)
  have h2: "read_id ?r2 = read_id ?r1"
    by (simp add: aligned_read_def)
  have h3: "reconstructed ?r1" and h4: "reconstructed ?r2"
    by (simp_all add: reconstructed_def aligned_read_def)
  have h5: "leftmost_position ?r1 \<le> 1" "1 < leftmost_position ?r1 + int (length (aligned_sequence ?r1))"
    "leftmost_position ?r2 \<le> 1" "1 < leftmost_position ?r2 + int (length (aligned_sequence ?r2))"
    by (simp_all add: aligned_read_def)
  have h6: "map_of (count_dictionary small_information) 1 \<noteq> None"
    by code_simp
  have "symbol_at ?r1 1 \<noteq> CHR ''N''"
    by (simp add: symbol_at_def aligned_read_def)
  with mate_overlap_counted_once [OF h1 h2 h3 h4 u1 u2 h5 h6]
  have "evidence_at (count_dictionary ?a1) 1 =
      evidence_at (count_dictionary small_information) 1 + 1"
    by simp
  with u1 u2 show ?thesis by simp
qed

theorem mate_overlap_counterexample:
  "main_loop
     (new_alignment_information [(''G1*001'', ''AC''), (''G1*002'', ''AG'')] [(1, 2)]) [(1, 2)]
     [new_read ''p'' 0 0 255 ''2M'' ''AN'', new_read ''p'' 0 1 255 ''2M'' ''GT''] =
   Inr \<lparr>reference_panel = [(''G1*001'', ''AC''), (''G1*002'', ''AG'')],
        count_dictionary = [(1, [(''A'', 0), (''T'', 0), (''G'', 0), (''C'', 0), (''.'', 0)])],
        proportion_dictionary = [],
        reference_alleles = [''G1*001'', ''G1*002''],
        processed_reads_dictionary = [(''p'', 0, Some 2)]\<rparr>"
  by code_simp

lemma get_aligned_sequence_reconstructed:
  "get_aligned_sequence r = Inr (r', returned) \<Longrightarrow> reconstructed r'"
  by (auto simp: get_aligned_sequence_def is_new_empty_list_def reconstructed_def Let_def
      split: sum.splits prod.splits)




lemma proportions_loop_error:
  "proportions_loop n t props = Inl e \<Longrightarrow> e = ZeroDivisionError"
  by (induction n t props rule: proportions_loop.induct) (auto split: if_splits)

lemma create_loop_zero:
  "(position, t) \<in> set cd \<Longrightarrow> t \<noteq> [] \<Longrightarrow> sum_list (map snd t) = 0 \<Longrightarrow>
   create_loop cd pd = Inl ZeroDivisionError"
proof (induction cd arbitrary: pd)
  case Nil
  then show ?case by simp
next
  case (Cons entry cd)
  obtain q u where entry: "entry = (q, u)" by (cases entry)
  show ?case
  proof (cases "proportions_loop (sum_list (map snd u)) u []")
    case (Inl e)
    with proportions_loop_error [OF Inl] entry show ?thesis by simp
  next
    case (Inr props)
    have "entry \<noteq> (position, t)"
    proof
      assume "entry = (position, t)"
      with entry Cons.prems Inr show False by (cases t) auto
    qed
    with Cons.prems have "(position, t) \<in> set cd" by auto
    from Cons.IH [OF this Cons.prems(2,3)] Inr entry show ?thesis by simp
  qed
qed

text \<open>
  Claim C1, as the code has it.  When a position of the Evidence Table has a total
  tallied count of zero, \<open>create_proportion_dictionary\<close> raises \<open>ZeroDivisionError\<close>:
  no sentinel is stored, no Proportion Table is returned, and nothing reaches the
  filtering downstream.
\<close>

theorem zero_evidence_raises:
  assumes "(position, t) \<in> set (count_dictionary a)" and "t \<noteq> []"
    and "sum_list (map snd t) = 0"
  shows "create_proportion_dictionary a = Inl ZeroDivisionError"
  using create_loop_zero [OF assms] by (simp add: create_proportion_dictionary_def)

theorem zero_evidence_raises_witness:
  "create_proportion_dictionary
     (wide_information
        \<lparr>count_dictionary :=
           [(1, [(''A'', 0), (''T'', 0), (''G'', 0), (''C'', 1), (''.'', 0)]),
            (2, [(''A'', 0), (''T'', 0), (''G'', 0), (''C'', 0), (''.'', 0)])]\<rparr>) =
   Inl ZeroDivisionError"
  using zero_evidence_raises
    [of 2 "[(''A'', 0), (''T'', 0), (''G'', 0), (''C'', 0), (''.'', 0)]"
       "wide_information
        \<lparr>count_dictionary :=
           [(1, [(''A'', 0), (''T'', 0), (''G'', 0), (''C'', 1), (''.'', 0)]),
            (2, [(''A'', 0), (''T'', 0), (''G'', 0), (''C'', 0), (''.'', 0)])]\<rparr>"]
  by simp

theorem zero_evidence_counterexample:
  "create_proportion_dictionary
     (new_alignment_information [(''G1*001'', ''AC''), (''G1*002'', ''AG'')] [(1, 2)]) =
   Inl ZeroDivisionError"
  by code_simp

subsection \<open>The derived table holds percentages only\<close>

lemma set_update_subset: "set (AList.update k v al) \<subseteq> insert (k, v) (set al)"
  by (induction al) auto

lemma proportions_loop_percentages:
  "percentages_only props \<Longrightarrow> proportions_loop n t props = Inr props' \<Longrightarrow>
   percentages_only props'"
proof (induction n t props rule: proportions_loop.induct)
  case (1 n props)
  then show ?case by simp
next
  case (2 n nucleotide k rest props)
  let ?v = "Percent (py_round2 (of_nat k / of_nat n * 100))"
  from "2.prems" have nz: "n \<noteq> 0"
    and loop: "proportions_loop n rest (AList.update nucleotide ?v props) = Inr props'"
    by (auto split: if_splits)
  have "percentages_only (AList.update nucleotide ?v props)"
    using "2.prems"(1) set_update_subset [of nucleotide ?v props]
    by (auto simp: percentages_only_def list_all_iff)
  from "2.IH" [OF nz this loop] show ?case .
qed

lemma create_loop_percentages:
  "list_all (\<lambda>row. percentages_only (snd row)) pd \<Longrightarrow> create_loop cd pd = Inr pd' \<Longrightarrow>
   list_all (\<lambda>row. percentages_only (snd row)) pd'"
proof (induction cd arbitrary: pd)
  case Nil
  then show ?case by simp
next
  case (Cons entry cd)
  obtain position t where entry: "entry = (position, t)" by (cases entry)
  from Cons.prems(2) entry obtain props where
    props: "proportions_loop (sum_list (map snd t)) t [] = Inr props"
    and loop: "create_loop cd (AList.update position props pd) = Inr pd'"
    by (auto split: sum.splits)
  have "percentages_only props"
    using proportions_loop_percentages [OF _ props] by (simp add: percentages_only_def)
  with Cons.prems(1) set_update_subset [of position props pd]
  have "list_all (\<lambda>row. percentages_only (snd row)) (AList.update position props pd)"
    by (auto simp: list_all_iff)
  from Cons.IH [OF this loop] show ?case .
qed

lemma create_proportion_dictionary_percentages:
  assumes "proportion_dictionary a = []" and "create_proportion_dictionary a = Inr a'"
  shows "list_all (\<lambda>row. percentages_only (snd row)) (proportion_dictionary a')"
proof -
  from assms obtain pd where "create_loop (count_dictionary a) [] = Inr pd"
    "proportion_dictionary a' = pd"
    by (auto simp: create_proportion_dictionary_def split: sum.splits)
  with create_loop_percentages [of "[]" "count_dictionary a" pd] show ?thesis by simp
qed

section \<open>Progressive filtering\<close>

lemma present_loop_result:
  "present_loop entry th acc = Inr present \<Longrightarrow>
   present = acc @ present_symbols entry th \<and> percentages_only entry"
proof (induction entry arbitrary: acc)
  case Nil
  then show ?case by (simp add: present_symbols_def percentages_only_def)
next
  case (Cons kv entry)
  obtain k v where kv: "kv = (k, v)" by (cases kv)
  show ?case
  proof (cases v)
    case (Percent p)
    with Cons.prems kv
    have "present_loop entry th (if th < p then acc @ [k] else acc) = Inr present" by simp
    from Cons.IH [OF this] kv Percent show ?thesis
      by (simp add: present_symbols_def percentages_only_def exceeds_def)
  next
    case (Nucleotides ns)
    with Cons.prems kv show ?thesis by simp
  qed
qed

lemma present_loop_percentages:
  "percentages_only entry \<Longrightarrow> present_loop entry th acc = Inr (acc @ present_symbols entry th)"
proof (induction entry arbitrary: acc)
  case Nil
  then show ?case by (simp add: present_symbols_def)
next
  case (Cons kv entry)
  obtain k v where kv: "kv = (k, v)" by (cases kv)
  from Cons.prems kv obtain p where p: "v = Percent p" and rest: "percentages_only entry"
    by (cases v) (simp_all add: percentages_only_def)
  from Cons.IH [OF rest] kv p show ?case
    by (simp add: present_symbols_def exceeds_def)
qed

lemma discard_loop_filter:
  "distinct (map fst panel) \<Longrightarrow> distinct primary \<Longrightarrow>
   list_all (\<lambda>allele. has_symbol_at position (snd allele)) panel \<Longrightarrow>
   discard_loop panel position present primary =
     Inr (filter (keeps panel position present) primary)"
proof (induction panel arbitrary: primary)
  case Nil
  then show ?case by (simp add: keeps_def)
next
  case (Cons row panel)
  obtain i s where row: "row = (i, s)" by (cases row)
  from Cons.prems row have fresh: "i \<notin> fst ` set panel" and dist: "distinct (map fst panel)"
    and rest: "list_all (\<lambda>allele. has_symbol_at position (snd allele)) panel"
    by auto
  from Cons.prems(3) row obtain n where n: "py_index s position = Inr n"
    by (auto simp: has_symbol_at_def split: sum.splits)
  have other: "keeps (row # panel) position present x = keeps panel position present x"
    if "x \<noteq> i" for x
    using that row by (auto simp: keeps_def nucleotide_present_def)
  have self: "keeps panel position present i" "keeps (row # panel) position present i \<longleftrightarrow> [n] \<in> set present"
    using fresh row n by (auto simp: keeps_def nucleotide_present_def)
  show ?case
  proof (cases "i \<in> set primary")
    case False
    then have "filter (keeps (row # panel) position present) primary =
        filter (keeps panel position present) primary"
      by (intro filter_cong refl) (use other in metis)
    with False row Cons.IH [OF dist Cons.prems(2) rest] show ?thesis by simp
  next
    case True
    show ?thesis
    proof (cases "[n] \<in> set present")
      case present: True
      have "filter (keeps (row # panel) position present) primary =
          filter (keeps panel position present) primary"
        by (intro filter_cong refl) (use self present other in metis)
      with True present row n Cons.IH [OF dist Cons.prems(2) rest] show ?thesis by simp
    next
      case absent: False
      have rm: "remove1 i primary = filter (\<lambda>x. x \<noteq> i) primary"
        using Cons.prems(2) by (simp add: distinct_remove1_removeAll removeAll_filter_not_eq) metis
      have "filter (keeps panel position present) (filter (\<lambda>x. x \<noteq> i) primary) =
          filter (keeps (row # panel) position present) primary"
        unfolding filter_filter
        by (intro filter_cong refl) (use self absent other in metis)
      moreover have "distinct (remove1 i primary)" using Cons.prems(2) by simp
      ultimately show ?thesis
        using True absent row n Cons.IH [OF dist _ rest, of "remove1 i primary"] rm by simp
    qed
  qed
qed

lemma position_loop_table:
  "position_loop es th a bound = Inr (a', bound') \<Longrightarrow>
   proportion_dictionary a' = foldl (store_present th) (proportion_dictionary a) es"
proof (induction es arbitrary: a bound)
  case Nil
  then show ?case by simp
next
  case (Cons row es)
  obtain position entry where row: "row = (position, entry)" by (cases row)
  from Cons.prems row obtain present primary where
    present: "present_loop entry th [] = Inr present"
    and rest: "position_loop es th
        (a\<lparr>proportion_dictionary :=
             AList.update position (AList.update present_key (Nucleotides present) entry)
               (proportion_dictionary a),
           reference_alleles := primary\<rparr>) True = Inr (a', bound')"
    by (auto simp: Let_def split: sum.splits)
  from present_loop_result [OF present] have "present = present_symbols entry th" by simp
  with Cons.IH [OF rest] row show ?case
    by (simp add: store_present_def with_present_def)
qed

lemma position_loop_result:
  assumes "distinct (map fst (reference_panel a))" "distinct (reference_alleles a)"
    and "list_all (\<lambda>row. list_all (\<lambda>allele. has_symbol_at (fst row) (snd allele)) (reference_panel a)) es"
    and "list_all (\<lambda>row. percentages_only (snd row)) es"
  shows "position_loop es th a bound =
     Inr (a\<lparr>proportion_dictionary := foldl (store_present th) (proportion_dictionary a) es,
            reference_alleles :=
              filter (\<lambda>x. \<forall>row \<in> set es.
                        keeps (reference_panel a) (fst row) (present_symbols (snd row) th) x)
                (reference_alleles a)\<rparr>,
          bound \<or> es \<noteq> [])"
  using assms
proof (induction es arbitrary: a bound)
  case Nil
  then show ?case by simp
next
  case (Cons row es)
  obtain position entry where row: "row = (position, entry)" by (cases row)
  let ?present = "present_symbols entry th"
  let ?a2 = "a\<lparr>proportion_dictionary := store_present th (proportion_dictionary a) row,
               reference_alleles :=
                 filter (keeps (reference_panel a) position ?present) (reference_alleles a)\<rparr>"
  from Cons.prems(4) row have "percentages_only entry" by simp
  from present_loop_percentages [OF this, of th "[]"]
  have present: "present_loop entry th [] = Inr ?present" by simp
  from Cons.prems(3) row
  have "list_all (\<lambda>allele. has_symbol_at position (snd allele)) (reference_panel a)" by simp
  from discard_loop_filter [OF Cons.prems(1,2) this, of ?present]
  have discard: "discard_loop (reference_panel a) position ?present (reference_alleles a) =
      Inr (filter (keeps (reference_panel a) position ?present) (reference_alleles a))" .
  have step: "position_loop (row # es) th a bound = position_loop es th ?a2 True"
    using present discard row by (simp add: store_present_def with_present_def Let_def)
  have "position_loop es th ?a2 True =
     Inr (?a2\<lparr>proportion_dictionary := foldl (store_present th) (proportion_dictionary ?a2) es,
            reference_alleles :=
              filter (\<lambda>x. \<forall>row \<in> set es.
                        keeps (reference_panel ?a2) (fst row) (present_symbols (snd row) th) x)
                (reference_alleles ?a2)\<rparr>,
          True \<or> es \<noteq> [])"
    using Cons.prems by (intro Cons.IH) simp_all
  also have "\<dots> = Inr (a\<lparr>proportion_dictionary := foldl (store_present th) (proportion_dictionary a) (row # es),
            reference_alleles :=
              filter (\<lambda>x. \<forall>row \<in> set (row # es).
                        keeps (reference_panel a) (fst row) (present_symbols (snd row) th) x)
                (reference_alleles a)\<rparr>,
          bound \<or> row # es \<noteq> [])"
    using row by (auto simp: conj_commute intro: filter_cong)
  finally show ?case using step by simp
qed

lemma map_of_foldl_store_present:
  "distinct (map fst es) \<Longrightarrow>
   map_of (foldl (store_present th) pd es) k =
     (case map_of es k of Some v \<Rightarrow> Some (with_present th v) | None \<Rightarrow> map_of pd k)"
proof (induction es arbitrary: pd)
  case Nil
  then show ?case by simp
next
  case (Cons row es)
  obtain position entry where row: "row = (position, entry)" by (cases row)
  from Cons.prems row have fresh: "map_of es position = None" and dist: "distinct (map fst es)"
    by (auto simp: map_of_eq_None_iff)
  from Cons.IH [OF dist, of "store_present th pd row"] row fresh show ?case
    by (auto simp: store_present_def update_conv' split: option.splits)
qed

lemma keys_foldl_store_present:
  "set (map fst es) \<subseteq> set (map fst pd) \<Longrightarrow>
   map fst (foldl (store_present th) pd es) = map fst pd"
proof (induction es arbitrary: pd)
  case Nil
  then show ?case by simp
next
  case (Cons row es)
  then have step: "map fst (store_present th pd row) = map fst pd"
    by (auto simp: store_present_def update_keys)
  with Cons.prems have "set (map fst es) \<subseteq> set (map fst (store_present th pd row))"
    by simp
  from Cons.IH [OF this] step show ?case by simp
qed

lemma progressive_filter_result:
  assumes "well_formed_input a" "proportion_dictionary a \<noteq> []"
  shows "progressive_filter a th =
     Inr (a\<lparr>proportion_dictionary :=
              foldl (store_present th) (proportion_dictionary a) (proportion_dictionary a),
            reference_alleles :=
              filter (\<lambda>x. \<forall>row \<in> set (proportion_dictionary a).
                        nucleotide_present (reference_panel a) (fst row)
                          (present_symbols (snd row) th) x)
                (reference_alleles a)\<rparr>,
          filter (\<lambda>x. \<forall>row \<in> set (proportion_dictionary a).
                        nucleotide_present (reference_panel a) (fst row)
                          (present_symbols (snd row) th) x)
                (reference_alleles a))"
proof -
  from assms(1) have wf: "distinct (map fst (reference_panel a))" "distinct (reference_alleles a)"
    "list_all (\<lambda>row. list_all (\<lambda>allele. has_symbol_at (fst row) (snd allele)) (reference_panel a))
      (proportion_dictionary a)"
    "list_all (\<lambda>row. percentages_only (snd row)) (proportion_dictionary a)"
    and alleles: "reference_alleles a = map fst (reference_panel a)"
    by (simp_all add: well_formed_input_def)
  have same: "filter (\<lambda>x. \<forall>row \<in> set (proportion_dictionary a).
                  keeps (reference_panel a) (fst row) (present_symbols (snd row) th) x)
                (reference_alleles a) =
      filter (\<lambda>x. \<forall>row \<in> set (proportion_dictionary a).
                  nucleotide_present (reference_panel a) (fst row) (present_symbols (snd row) th) x)
                (reference_alleles a)"
    using alleles by (intro filter_cong refl) (auto simp: keeps_def)
  from position_loop_result [OF wf, of th False] assms(2) same show ?thesis
    by (simp add: progressive_filter_def)
qed

lemma progressive_filter_no_position:
  "proportion_dictionary a = [] \<Longrightarrow> progressive_filter a th = Inl UnboundLocalError"
  by (simp add: progressive_filter_def)



text \<open>
  Claim C2, as the code has it.  At a position whose present-symbol set is empty the
  loop over the reference alleles removes every candidate, since no allele carries a
  present symbol there; the pass does not raise and its final candidate list is empty.
\<close>

theorem empty_present_set_removes_all:
  assumes "well_formed_input a" and "row \<in> set (proportion_dictionary a)"
    and "present_symbols (snd row) th = []"
  shows "discard_loop (reference_panel a) (fst row) [] (reference_alleles a) = Inr [] \<and>
         (\<exists>a'. progressive_filter a th = Inr (a', []))"
proof -
  from assms(1,2) have wf: "distinct (map fst (reference_panel a))" "distinct (reference_alleles a)"
    "list_all (\<lambda>allele. has_symbol_at (fst row) (snd allele)) (reference_panel a)"
    and alleles: "reference_alleles a = map fst (reference_panel a)"
    by (auto simp: well_formed_input_def list_all_iff)
  have "filter (keeps (reference_panel a) (fst row) []) (reference_alleles a) = []"
    using alleles by (auto simp: keeps_def nucleotide_present_def filter_empty_conv
        split: option.splits sum.splits)
  with discard_loop_filter [OF wf, of "[]"]
  have step: "discard_loop (reference_panel a) (fst row) [] (reference_alleles a) = Inr []"
    by simp
  from assms(2) have ne: "proportion_dictionary a \<noteq> []" by auto
  have "\<not> nucleotide_present (reference_panel a) (fst row) (present_symbols (snd row) th) x" for x
    using assms(3) by (simp add: nucleotide_present_def split: option.splits sum.splits)
  with assms(2) have "filter (\<lambda>x. \<forall>row \<in> set (proportion_dictionary a).
      nucleotide_present (reference_panel a) (fst row) (present_symbols (snd row) th) x)
      (reference_alleles a) = []"
    by (auto simp: filter_empty_conv)
  with progressive_filter_result [OF assms(1) ne, of th] step show ?thesis by simp
qed

theorem empty_present_set_removes_all_witness:
  "discard_loop (reference_panel small_proportions) 1 [] (reference_alleles small_proportions) =
     Inr [] \<and>
   map_sum id snd (progressive_filter small_proportions 60) = Inr []"
proof -
  let ?row = "(1 :: int, [(''A'', Percent 0), (''T'', Percent 0), (''G'', Percent 50),
      (''C'', Percent 50), (''.'', Percent 0)])"
  have wf: "well_formed_input small_proportions"
    by code_simp
  have row: "?row \<in> set (proportion_dictionary small_proportions)"
    by (simp add: small_proportions_def)
  have none: "present_symbols (snd ?row) 60 = []"
    by (simp add: present_symbols_def exceeds_def)
  from empty_present_set_removes_all [OF wf row none] show ?thesis
    by auto
qed

theorem empty_present_set_counterexample:
  "map_sum id snd
     (progressive_filter
        \<lparr>reference_panel = [(''G1*001'', ''AC''), (''G1*002'', ''AG'')],
         count_dictionary = [(1, [(''A'', 0), (''T'', 0), (''G'', 1), (''C'', 1), (''.'', 0)])],
         proportion_dictionary =
           [(1, [(''A'', Percent 0), (''T'', Percent 0), (''G'', Percent 50), (''C'', Percent 50),
                 (''.'', Percent 0)])],
         reference_alleles = [''G1*001'', ''G1*002''],
         processed_reads_dictionary = []\<rparr> 60) =
   Inr []"
  by code_simp

lemma map_of_with_present:
  "map_of (with_present th entry) k =
     (if k = present_key then Some (Nucleotides (present_symbols entry th)) else map_of entry k)"
  by (simp add: with_present_def update_conv')

text \<open>
  Claim C9, as the code has it.  The Progressive Filter keeps the positions of the
  Proportion Table and the value of every symbol key, and stores in the entry of every
  position one more key, \<open>Present Nucleotides\<close>, with the list of the position's
  present symbols.
\<close>

theorem filter_stores_present_symbols:
  assumes "progressive_filter a th = Inr (a', primary)"
    and "distinct (map fst (proportion_dictionary a))"
  shows "map fst (proportion_dictionary a') = map fst (proportion_dictionary a) \<and>
         (\<forall>position. map_of (proportion_dictionary a') position =
              map_option (with_present th) (map_of (proportion_dictionary a) position)) \<and>
         (\<forall>entry k. map_of (with_present th entry) k =
              (if k = present_key then Some (Nucleotides (present_symbols entry th))
               else map_of entry k))"
proof -
  from assms(1) obtain bound where
    loop: "position_loop (proportion_dictionary a) th a False = Inr (a', bound)"
    by (auto simp: progressive_filter_def split: sum.splits prod.splits if_splits)
  from position_loop_table [OF loop]
  have table: "proportion_dictionary a' =
      foldl (store_present th) (proportion_dictionary a) (proportion_dictionary a)" .
  have keys: "map fst (proportion_dictionary a') = map fst (proportion_dictionary a)"
    using table keys_foldl_store_present [of "proportion_dictionary a" "proportion_dictionary a" th]
    by simp
  have "map_of (proportion_dictionary a') position =
      map_option (with_present th) (map_of (proportion_dictionary a) position)" for position
    using table map_of_foldl_store_present [OF assms(2), of th "proportion_dictionary a" position]
    by (simp split: option.splits)
  with keys map_of_with_present show ?thesis by blast
qed

theorem filter_stores_present_symbols_witness:
  "progressive_filter small_proportions 5 =
     Inr (small_proportions
            \<lparr>proportion_dictionary :=
               [(1, [(''A'', Percent 0), (''T'', Percent 0), (''G'', Percent 50),
                     (''C'', Percent 50), (''.'', Percent 0),
                     (''Present Nucleotides'', Nucleotides [''G'', ''C''])])]\<rparr>,
          [''G1*001'', ''G1*002'']) \<and>
   map_of [(1 :: int, [(''A'', Percent 0), (''T'', Percent 0), (''G'', Percent 50),
                       (''C'', Percent 50), (''.'', Percent 0),
                       (''Present Nucleotides'', Nucleotides [''G'', ''C''])])] 1 =
     map_option (with_present 5) (map_of (proportion_dictionary small_proportions) 1)"
proof -
  let ?a' = "small_proportions
            \<lparr>proportion_dictionary :=
               [(1, [(''A'', Percent 0), (''T'', Percent 0), (''G'', Percent 50),
                     (''C'', Percent 50), (''.'', Percent 0),
                     (''Present Nucleotides'', Nucleotides [''G'', ''C''])])]\<rparr>"
  have run: "progressive_filter small_proportions 5 = Inr (?a', [''G1*001'', ''G1*002''])"
    by code_simp
  have dist: "distinct (map fst (proportion_dictionary small_proportions))"
    by (simp add: small_proportions_def)
  from filter_stores_present_symbols [OF run dist]
  have "map_of (proportion_dictionary ?a') 1 =
      map_option (with_present 5) (map_of (proportion_dictionary small_proportions) 1)"
    by blast
  with run show ?thesis by simp
qed

theorem filter_stores_present_symbols_counterexample:
  "map_sum id (\<lambda>result. proportion_dictionary (fst result))
     (progressive_filter
        \<lparr>reference_panel = [(''G1*001'', ''AC''), (''G1*002'', ''AG'')],
         count_dictionary = [(1, [(''A'', 0), (''T'', 0), (''G'', 1), (''C'', 1), (''.'', 0)])],
         proportion_dictionary =
           [(1, [(''A'', Percent 0), (''T'', Percent 0), (''G'', Percent 50), (''C'', Percent 50),
                 (''.'', Percent 0)])],
         reference_alleles = [''G1*001'', ''G1*002''],
         processed_reads_dictionary = []\<rparr> 5) =
   Inr [(1, [(''A'', Percent 0), (''T'', Percent 0), (''G'', Percent 50), (''C'', Percent 50),
             (''.'', Percent 0), (''Present Nucleotides'', Nucleotides [''G'', ''C''])])]"
  by code_simp

text \<open>
  A second pass over a table that a first pass has filtered meets the stored list when
  it compares the values of an entry with the threshold.
\<close>

lemma second_pass_raises:
  "progressive_filter
     (small_proportions
        \<lparr>proportion_dictionary :=
           [(1, [(''A'', Percent 0), (''T'', Percent 0), (''G'', Percent 50),
                 (''C'', Percent 50), (''.'', Percent 0),
                 (''Present Nucleotides'', Nucleotides [''G'', ''C''])])]\<rparr>) 5 =
   Inl TypeError"
  by code_simp

section \<open>Combination matching\<close>

lemma update_new_key: "k \<notin> fst ` set al \<Longrightarrow> AList.update k v al = al @ [(k, v)]"
  by (induction al) auto

lemma allele_symbols_map:
  "distinct (map fst alleles) \<Longrightarrow> fst ` set alleles \<inter> fst ` set symbols = {} \<Longrightarrow>
   list_all (\<lambda>allele. cp < length (snd allele)) alleles \<Longrightarrow>
   allele_symbols alleles cp symbols =
     Inr (symbols @ map (\<lambda>allele. (fst allele, snd allele ! cp)) alleles)"
proof (induction alleles arbitrary: symbols)
  case Nil
  then show ?case by simp
next
  case (Cons row alleles)
  obtain x s where row: "row = (x, s)" by (cases row)
  from Cons.prems row have new: "x \<notin> fst ` set symbols" and len: "cp < length s"
    by auto
  from Cons.prems row have "distinct (map fst alleles)"
    "fst ` set alleles \<inter> fst ` set (symbols @ [(x, s ! cp)]) = {}"
    "list_all (\<lambda>allele. cp < length (snd allele)) alleles"
    by auto
  from Cons.IH [OF this] row len update_new_key [OF new] show ?case
    by (simp add: py_index_def)
qed

lemma gene_symbols_map:
  "distinct (map fst rad) \<Longrightarrow> fst ` set rad \<inter> fst ` set csp = {} \<Longrightarrow>
   list_all (\<lambda>gene. distinct (map fst (snd gene)) \<and>
               list_all (\<lambda>allele. cp < length (snd allele)) (snd gene)) rad \<Longrightarrow>
   gene_symbols rad cp csp = Inr (csp @ symbols_at rad cp)"
proof (induction rad arbitrary: csp)
  case Nil
  then show ?case by (simp add: symbols_at_def)
next
  case (Cons row rad)
  obtain g alleles where row: "row = (g, alleles)" by (cases row)
  let ?symbols = "map (\<lambda>allele. (fst allele, snd allele ! cp)) alleles"
  from Cons.prems row have new: "g \<notin> fst ` set csp" by auto
  from Cons.prems(3) row have "distinct (map fst alleles)"
    "list_all (\<lambda>allele. cp < length (snd allele)) alleles"
    by simp_all
  from allele_symbols_map [OF this(1) _ this(2), of "[]"]
  have inner: "allele_symbols alleles cp [] = Inr ?symbols" by simp
  from Cons.prems row have "distinct (map fst rad)"
    "fst ` set rad \<inter> fst ` set (csp @ [(g, ?symbols)]) = {}"
    "list_all (\<lambda>gene. distinct (map fst (snd gene)) \<and>
               list_all (\<lambda>allele. cp < length (snd allele)) (snd gene)) rad"
    by auto
  from Cons.IH [OF this] row inner update_new_key [OF new] show ?case
    by (simp add: symbols_at_def)
qed

lemma coding_sequences_per_position_symbols_at:
  assumes "well_formed_results rad cp"
  shows "coding_sequences_per_position rad cp = Inr (symbols_at rad cp)"
proof -
  from assms have "distinct (map fst rad)"
    "list_all (\<lambda>gene. distinct (map fst (snd gene)) \<and>
               list_all (\<lambda>allele. cp < length (snd allele)) (snd gene)) rad"
    by (auto simp: well_formed_results_def list_all_iff)
  from gene_symbols_map [OF this(1) _ this(2), of "[]"] show ?thesis
    by (simp add: coding_sequences_per_position_def)
qed

lemma is_discriminant_symbols_at:
  "is_discriminant (symbols_at rad cp) \<longleftrightarrow>
   (\<exists>gene \<in> set rad. 1 < card ((\<lambda>allele. snd allele ! cp) ` set (snd gene)))"
  by (auto simp: is_discriminant_def symbols_at_def list_ex_iff length_remdups_card_conv
      image_image)

text \<open>
  Claim C3, as the code has it.  A position appends a per-position list of matching
  combinations exactly when more than one non-gap symbol is present at it and it is
  discriminant, that is, the result alleles of some gene carry more than one distinct
  symbol at it.  A discriminant position with at most one present non-gap symbol is
  skipped like a position where all alleles agree.
\<close>

theorem position_contributes_iff:
  assumes "well_formed_results rad cp"
    and "non_gap_present entry = Inr present"
    and "match_position rad all_combinations cp entry = Inr appended"
  shows "appended \<noteq> None \<longleftrightarrow>
         1 < length present \<and>
         (\<exists>gene \<in> set rad. 1 < card ((\<lambda>allele. snd allele ! cp) ` set (snd gene)))"
  using assms(2,3) coding_sequences_per_position_symbols_at [OF assms(1)]
    is_discriminant_symbols_at [of rad cp]
  by (auto simp: match_position_def split: if_splits sum.splits)

theorem position_contributes_iff_witness:
  "match_position sample_results (all_genotype_combinations sample_results) 0 sample_entry =
     Inr (Some [[(''G1*001'', ''G1*002''), (''G2*001'', ''G2*001'')]]) \<and>
   1 < length [''G'', ''C''] \<and>
   (\<exists>gene \<in> set sample_results. 1 < card ((\<lambda>allele. snd allele ! 0) ` set (snd gene)))"
proof -
  have wf: "well_formed_results sample_results 0"
    by code_simp
  have present: "non_gap_present sample_entry = Inr [''G'', ''C'']"
    by code_simp
  have run: "match_position sample_results (all_genotype_combinations sample_results) 0 sample_entry =
      Inr (Some [[(''G1*001'', ''G1*002''), (''G2*001'', ''G2*001'')]])"
    by code_simp
  from position_contributes_iff [OF wf present run] run show ?thesis
    by simp
qed

theorem position_contributes_counterexample:
  "coding_sequences_per_position [(''G1'', [(''G1*001'', ''A''), (''G1*002'', ''.'')])] 0 =
     Inr [(''G1'', [(''G1*001'', CHR ''A''), (''G1*002'', CHR ''.'')])] \<and>
   is_discriminant [(''G1'', [(''G1*001'', CHR ''A''), (''G1*002'', CHR ''.'')])] \<and>
   find_matching_combinations_per_position
     [(''G1'', [(''G1*001'', ''A''), (''G1*002'', ''.'')])]
     [(1, [(''A'', Percent 90), (''T'', Percent 0), (''G'', Percent 0), (''C'', Percent 0),
           (''.'', Percent 10), (''Present Nucleotides'', Nucleotides [''A'', ''.''])])] =
     Inr ([[(''G1*001'', ''G1*001'')], [(''G1*001'', ''G1*002'')], [(''G1*002'', ''G1*002'')]], [])"
  by code_simp









end
